theory Spec2Isabelle
  imports Complex_Main
begin

section \<open>Black--Scholes pricer and implied-volatility solver\<close>

text \<open>
  A shallow embedding of \<^verbatim>\<open>black_scholes.py\<close> and \<^verbatim>\<open>implied_vol.py\<close>.

  Conventions of the embedding.
  \<^item> A Python \<^verbatim>\<open>float\<close> is a \<^typ>\<open>real\<close>: arithmetic is exact, so rounding, overflow,
    underflow, infinities and not-a-number \<^emph>\<open>arguments\<close> are outside the model. The
    not-a-number \<^emph>\<open>result\<close> \<^verbatim>\<open>float("nan")\<close> that the solvers return as a sentinel is the
    constructor \<open>NaN\<close> of the result type.
  \<^item> A raised exception is the left summand of \<open>error + 'a\<close>. \<^verbatim>\<open>ValueError\<close> carries its
    message, so that the check that raised it can be told apart.
  \<^item> Python's float division raises \<^verbatim>\<open>ZeroDivisionError\<close> on a zero divisor; HOL's
    \<open>x / 0\<close> is \<open>0\<close>, so the division of the Newton step is \<open>py_div\<close>.
  \<^item> A \<^verbatim>\<open>str\<close> is a \<^typ>\<open>string\<close> whose characters are the code points below 256.
  \<^item> A \<^verbatim>\<open>for _ in range(max_iter)\<close> loop is a recursion on \<open>nat max_iter\<close>
    (no iteration for a negative count, as \<^verbatim>\<open>range\<close> has it).
\<close>

subsection \<open>Values\<close>

datatype error = ValueError string | ZeroDivisionError

datatype float_result = NaN | Val real

definition py_div :: "real \<Rightarrow> real \<Rightarrow> error + real" where
  "py_div a b = (if b = 0 then Inl ZeroDivisionError else Inr (a / b))"

subsection \<open>\<^verbatim>\<open>str.lower\<close> and \<^verbatim>\<open>str.strip\<close>\<close>

text \<open>
  Below code point 256, \<^verbatim>\<open>str.lower\<close> moves \<open>A..Z\<close> and the Latin-1 capitals
  (192..222 except the multiplication sign 215) up by 32, and \<^verbatim>\<open>str.strip\<close> removes
  the characters for which \<^verbatim>\<open>str.isspace\<close> holds: 9..13, 28..32, 133 and 160.
\<close>

definition lower_char :: "char \<Rightarrow> char" where
  "lower_char c =
     (let n = (of_char c :: nat)
      in if (65 \<le> n \<and> n \<le> 90) \<or> (192 \<le> n \<and> n \<le> 222 \<and> n \<noteq> 215)
         then char_of (n + 32) else c)"

definition lower :: "string \<Rightarrow> string" where
  "lower s = map lower_char s"

definition isspace :: "char \<Rightarrow> bool" where
  "isspace c =
     (let n = (of_char c :: nat)
      in (9 \<le> n \<and> n \<le> 13) \<or> (28 \<le> n \<and> n \<le> 32) \<or> n = 133 \<or> n = 160)"

definition strip :: "string \<Rightarrow> string" where
  "strip s = rev (dropWhile isspace (rev (dropWhile isspace s)))"

text \<open>The source's \<^verbatim>\<open>option_type.lower().strip()\<close>.\<close>

definition normalize_side :: "string \<Rightarrow> string" where
  "normalize_side option_type = strip (lower option_type)"

definition option_type_msg :: string where
  "option_type_msg = ''option_type must be 'call' or 'put'.''"

subsection \<open>The standard normal distribution\<close>

text \<open>
  Modelled from the spec: \<^verbatim>\<open>scipy.stats.norm\<close> (\<^verbatim>\<open>norm.cdf\<close>, \<^verbatim>\<open>norm.pdf\<close>) is a
  library outside the repository. The spec names them: the standard normal density
  and the standard normal cumulative distribution. The density is
  \<open>exp (- x\<^sup>2 / 2) / sqrt (2 pi)\<close>; the distribution function is its antiderivative
  with value \<open>1/2\<close> at \<open>0\<close>, written as the power series of that antiderivative
  (\<open>norm_cdf_deriv\<close> and \<open>norm_cdf_zero\<close> below prove that it is).
\<close>

definition norm_pdf :: "real \<Rightarrow> real" where
  "norm_pdf x = exp (- (x * x) / 2) / sqrt (2 * pi)"

definition cdf_term :: "real \<Rightarrow> nat \<Rightarrow> real" where
  "cdf_term x n = (- 1) ^ n * x ^ (2 * n + 1) / (2 ^ n * fact n * real (2 * n + 1))"

definition norm_cdf :: "real \<Rightarrow> real" where
  "norm_cdf x = 1 / 2 + (\<Sum>n. cdf_term x n) / sqrt (2 * pi)"

subsection \<open>\<^verbatim>\<open>black_scholes.py\<close>\<close>

definition validate_inputs :: "real \<Rightarrow> real \<Rightarrow> real \<Rightarrow> real \<Rightarrow> error + unit" where
  "validate_inputs S K T sigma =
     (if S \<le> 0 then Inl (ValueError ''Spot S must be > 0.'')
      else if K \<le> 0 then Inl (ValueError ''Strike K must be > 0.'')
      else if T < 0 then Inl (ValueError ''Time to maturity T must be >= 0.'')
      else if sigma < 0 then Inl (ValueError ''Volatility sigma must be >= 0.'')
      else Inr ())"

definition black_scholes_price ::
  "string \<Rightarrow> real \<Rightarrow> real \<Rightarrow> real \<Rightarrow> real \<Rightarrow> real \<Rightarrow> real \<Rightarrow> error + real" where
  "black_scholes_price option_type S K T r q sigma =
     (let option_type = normalize_side option_type in
      if option_type \<noteq> ''call'' \<and> option_type \<noteq> ''put'' then Inl (ValueError option_type_msg)
      else
        (case validate_inputs S K T sigma of
           Inl e \<Rightarrow> Inl e
         | Inr _ \<Rightarrow>
             if T = 0 then
               (if option_type = ''call'' then Inr (max (S - K) 0) else Inr (max (K - S) 0))
             else if sigma = 0 then
               (let forward_T = S * exp ((r - q) * T);
                    disc = exp (- r * T)
                in if option_type = ''call'' then Inr (disc * max (forward_T - K) 0)
                   else Inr (disc * max (K - forward_T) 0))
             else
               (let sqrtT = sqrt T;
                    d1 = (ln (S / K) + (r - q + 1 / 2 * sigma * sigma) * T) / (sigma * sqrtT);
                    d2 = d1 - sigma * sqrtT;
                    disc_q = exp (- q * T);
                    disc_r = exp (- r * T)
                in if option_type = ''call''
                   then Inr (S * disc_q * norm_cdf d1 - K * disc_r * norm_cdf d2)
                   else Inr (K * disc_r * norm_cdf (- d2) - S * disc_q * norm_cdf (- d1)))))"

definition black_scholes_vega ::
  "real \<Rightarrow> real \<Rightarrow> real \<Rightarrow> real \<Rightarrow> real \<Rightarrow> real \<Rightarrow> error + real" where
  "black_scholes_vega S K T r q sigma =
     (case validate_inputs S K T sigma of
        Inl e \<Rightarrow> Inl e
      | Inr _ \<Rightarrow>
          if T = 0 \<or> sigma = 0 then Inr 0
          else
            (let sqrtT = sqrt T;
                 d1 = (ln (S / K) + (r - q + 1 / 2 * sigma * sigma) * T) / (sigma * sqrtT)
             in Inr (S * exp (- q * T) * norm_pdf d1 * sqrtT)))"

definition put_call_parity_check ::
  "real \<Rightarrow> real \<Rightarrow> real \<Rightarrow> real \<Rightarrow> real \<Rightarrow> real \<Rightarrow> real \<Rightarrow> real \<Rightarrow> bool" where
  "put_call_parity_check S K T r q call_price put_price tol =
     (let lhs = call_price - put_price;
          rhs = S * exp (- q * T) - K * exp (- r * T)
      in \<bar>lhs - rhs\<bar> \<le> tol)"

text \<open>The default of \<^verbatim>\<open>tol\<close> in \<^verbatim>\<open>put_call_parity_check\<close>.\<close>

definition parity_tol_default :: real where
  "parity_tol_default = 1 / 10 ^ 6"

subsection \<open>\<^verbatim>\<open>implied_vol.py\<close>\<close>

definition no_arbitrage_bounds ::
  "string \<Rightarrow> real \<Rightarrow> real \<Rightarrow> real \<Rightarrow> real \<Rightarrow> real \<Rightarrow> real \<times> real" where
  "no_arbitrage_bounds option_type S K T r q =
     (let disc_q = exp (- q * T);
          disc_r = exp (- r * T)
      in if option_type = ''call''
         then (max 0 (S * disc_q - K * disc_r), S * disc_q)
         else (max 0 (K * disc_r - S * disc_q), K * disc_r))"

text \<open>
  The guard \<^verbatim>\<open>not (lb - 1e-12 <= market_price <= ub + 1e-12)\<close> that both solvers apply
  when \<^verbatim>\<open>enforce_bounds\<close> is set.
\<close>

definition outside_bounds ::
  "string \<Rightarrow> real \<Rightarrow> real \<Rightarrow> real \<Rightarrow> real \<Rightarrow> real \<Rightarrow> real \<Rightarrow> bool" where
  "outside_bounds option_type market_price S K T r q =
     (case no_arbitrage_bounds option_type S K T r q of
        (lb, ub) \<Rightarrow>
          \<not> (lb - 1 / 10 ^ 12 \<le> market_price \<and> market_price \<le> ub + 1 / 10 ^ 12))"

text \<open>
  The body of the \<^verbatim>\<open>for\<close> loop of \<^verbatim>\<open>implied_vol_newton\<close>; the first argument counts the
  iterations that remain, the last is the running \<^verbatim>\<open>sigma\<close>.
\<close>

fun newton_loop ::
  "nat \<Rightarrow> string \<Rightarrow> real \<Rightarrow> real \<Rightarrow> real \<Rightarrow> real \<Rightarrow> real \<Rightarrow> real \<Rightarrow> real \<Rightarrow> real \<Rightarrow> real \<Rightarrow> real
     \<Rightarrow> real \<Rightarrow> error + float_result" where
  "newton_loop 0 option_type market_price S K T r q tol vega_floor sigma_min sigma_max sigma =
     Inr NaN"
| "newton_loop (Suc n) option_type market_price S K T r q tol vega_floor sigma_min sigma_max sigma =
     (case black_scholes_price option_type S K T r q sigma of
        Inl e \<Rightarrow> Inl e
      | Inr price \<Rightarrow>
          (let diff = price - market_price in
           if \<bar>diff\<bar> < tol then Inr (Val sigma)
           else
             (case black_scholes_vega S K T r q sigma of
                Inl e \<Rightarrow> Inl e
              | Inr vega \<Rightarrow>
                  if vega < vega_floor then Inr NaN
                  else
                    (case py_div diff vega of
                       Inl e \<Rightarrow> Inl e
                     | Inr step \<Rightarrow>
                         (let sigma = sigma - step in
                          if sigma < sigma_min \<or> sigma > sigma_max then Inr NaN
                          else newton_loop n option_type market_price S K T r q tol vega_floor
                                 sigma_min sigma_max sigma)))))"

definition implied_vol_newton ::
  "string \<Rightarrow> real \<Rightarrow> real \<Rightarrow> real \<Rightarrow> real \<Rightarrow> real \<Rightarrow> real \<Rightarrow> real \<Rightarrow> real \<Rightarrow> int \<Rightarrow> real \<Rightarrow> real
     \<Rightarrow> real \<Rightarrow> bool \<Rightarrow> error + float_result" where
  "implied_vol_newton option_type market_price S K T r q initial_sigma tol max_iter vega_floor
     sigma_min sigma_max enforce_bounds =
     (let option_type = normalize_side option_type in
      if option_type \<noteq> ''call'' \<and> option_type \<noteq> ''put'' then Inl (ValueError option_type_msg)
      else if market_price < 0 then Inr NaN
      else if T \<le> 0 then Inr NaN
      else if enforce_bounds \<and> outside_bounds option_type market_price S K T r q then Inr NaN
      else
        (let sigma = initial_sigma;
             sigma = min (max sigma sigma_min) sigma_max
         in newton_loop (nat max_iter) option_type market_price S K T r q tol vega_floor
              sigma_min sigma_max sigma))"

text \<open>
  The body of the \<^verbatim>\<open>for\<close> loop of \<^verbatim>\<open>implied_vol_bisection\<close>, with the four variables it
  assigns: \<^verbatim>\<open>low\<close>, \<^verbatim>\<open>high\<close>, \<^verbatim>\<open>f_low\<close>, \<^verbatim>\<open>f_high\<close>.
\<close>

fun bisection_loop ::
  "nat \<Rightarrow> string \<Rightarrow> real \<Rightarrow> real \<Rightarrow> real \<Rightarrow> real \<Rightarrow> real \<Rightarrow> real \<Rightarrow> real \<Rightarrow> real \<Rightarrow> real \<Rightarrow> real
     \<Rightarrow> real \<Rightarrow> error + float_result" where
  "bisection_loop 0 option_type market_price S K T r q tol low high f_low f_high = Inr NaN"
| "bisection_loop (Suc n) option_type market_price S K T r q tol low high f_low f_high =
     (let mid = 1 / 2 * (low + high) in
      case black_scholes_price option_type S K T r q mid of
        Inl e \<Rightarrow> Inl e
      | Inr price \<Rightarrow>
          (let f_mid = price - market_price in
           if \<bar>f_mid\<bar> < tol \<or> (high - low) < tol then Inr (Val mid)
           else if f_low * f_mid \<le> 0
             then bisection_loop n option_type market_price S K T r q tol low mid f_low f_mid
             else bisection_loop n option_type market_price S K T r q tol mid high f_mid f_high))"

definition implied_vol_bisection ::
  "string \<Rightarrow> real \<Rightarrow> real \<Rightarrow> real \<Rightarrow> real \<Rightarrow> real \<Rightarrow> real \<Rightarrow> real \<Rightarrow> int \<Rightarrow> real \<Rightarrow> real \<Rightarrow> bool
     \<Rightarrow> error + float_result" where
  "implied_vol_bisection option_type market_price S K T r q tol max_iter sigma_low sigma_high
     enforce_bounds =
     (let option_type = normalize_side option_type in
      if option_type \<noteq> ''call'' \<and> option_type \<noteq> ''put'' then Inl (ValueError option_type_msg)
      else if market_price < 0 \<or> T \<le> 0 then Inr NaN
      else if enforce_bounds \<and> outside_bounds option_type market_price S K T r q then Inr NaN
      else
        (let low = sigma_low; high = sigma_high in
         case black_scholes_price option_type S K T r q low of
           Inl e \<Rightarrow> Inl e
         | Inr price_low \<Rightarrow>
             (case black_scholes_price option_type S K T r q high of
                Inl e \<Rightarrow> Inl e
              | Inr price_high \<Rightarrow>
                  (let f_low = price_low - market_price;
                       f_high = price_high - market_price
                   in if f_low * f_high > 0 then Inr NaN
                      else bisection_loop (nat max_iter) option_type market_price S K T r q tol
                             low high f_low f_high))))"

text \<open>The keyword defaults of the two solvers, as \<^verbatim>\<open>implied_vol\<close> leaves them.\<close>

definition newton_tol :: real where "newton_tol = 1 / 10 ^ 7"
definition newton_max_iter :: int where "newton_max_iter = 100"
definition newton_vega_floor :: real where "newton_vega_floor = 1 / 10 ^ 10"
definition newton_sigma_min :: real where "newton_sigma_min = 1 / 10 ^ 6"
definition newton_sigma_max :: real where "newton_sigma_max = 5"
definition bisection_tol :: real where "bisection_tol = 1 / 10 ^ 7"
definition bisection_max_iter :: int where "bisection_max_iter = 200"
definition bisection_sigma_low :: real where "bisection_sigma_low = 1 / 10 ^ 6"
definition bisection_sigma_high :: real where "bisection_sigma_high = 5"

text \<open>
  \<^verbatim>\<open>math.isnan(sigma)\<close> holds of the sentinel only, since no other not-a-number arises
  in exact arithmetic. An exception of the Newton call leaves \<^verbatim>\<open>implied_vol\<close> at once.
\<close>

definition implied_vol ::
  "string \<Rightarrow> real \<Rightarrow> real \<Rightarrow> real \<Rightarrow> real \<Rightarrow> real \<Rightarrow> real \<Rightarrow> real \<Rightarrow> error + float_result" where
  "implied_vol option_type market_price S K T r q initial_sigma =
     (case implied_vol_newton option_type market_price S K T r q initial_sigma newton_tol
             newton_max_iter newton_vega_floor newton_sigma_min newton_sigma_max True of
        Inl e \<Rightarrow> Inl e
      | Inr NaN \<Rightarrow>
          implied_vol_bisection option_type market_price S K T r q bisection_tol
            bisection_max_iter bisection_sigma_low bisection_sigma_high True
      | Inr (Val sigma) \<Rightarrow> Inr (Val sigma))"


subsection \<open>The two iterations in the specification's words\<close>

text \<open>
  The specification describes both solvers over \<open>f sigma = price sigma - market_price\<close>.
  \<open>price_gap\<close> is that function for the pricer of the source; an exception of the pricer
  is an exception of \<open>f\<close>.
\<close>

definition price_gap ::
  "string \<Rightarrow> real \<Rightarrow> real \<Rightarrow> real \<Rightarrow> real \<Rightarrow> real \<Rightarrow> real \<Rightarrow> real \<Rightarrow> error + real" where
  "price_gap option_type market_price S K T r q sigma =
     (case black_scholes_price option_type S K T r q sigma of
        Inl e \<Rightarrow> Inl e
      | Inr price \<Rightarrow> Inr (price - market_price))"

text \<open>
  Newton--Raphson, from the specification: iterate up to \<open>n\<close> times; \<open>diff = f sigma\<close>;
  converged when \<open>\<bar>diff\<bar> < tol\<close>; undefined when the vega is below the floor; otherwise
  the Newton step, undefined at once when the updated value leaves
  \<open>[sigma_min, sigma_max]\<close>; undefined when the iterations are used up.
\<close>

fun newton_spec ::
  "nat \<Rightarrow> (real \<Rightarrow> error + real) \<Rightarrow> (real \<Rightarrow> error + real) \<Rightarrow> real \<Rightarrow> real \<Rightarrow> real \<Rightarrow> real
     \<Rightarrow> real \<Rightarrow> error + float_result" where
  "newton_spec 0 f vega tol vega_floor sigma_min sigma_max sigma = Inr NaN"
| "newton_spec (Suc n) f vega tol vega_floor sigma_min sigma_max sigma =
     (case f sigma of
        Inl e \<Rightarrow> Inl e
      | Inr diff \<Rightarrow>
          if \<bar>diff\<bar> < tol then Inr (Val sigma)
          else
            (case vega sigma of
               Inl e \<Rightarrow> Inl e
             | Inr v \<Rightarrow>
                 if v < vega_floor then Inr NaN
                 else
                   (case py_div diff v of
                      Inl e \<Rightarrow> Inl e
                    | Inr step \<Rightarrow>
                        if sigma - step < sigma_min \<or> sigma_max < sigma - step then Inr NaN
                        else newton_spec n f vega tol vega_floor sigma_min sigma_max
                               (sigma - step))))"

text \<open>
  Bisection, from the specification: a state is the bracket \<open>[low, high]\<close> alone;
  \<open>mid\<close> is its midpoint; converged when \<open>\<bar>f mid\<bar> < tol\<close> or the width is below \<open>tol\<close>;
  otherwise the lower half when \<open>f low * f mid \<le> 0\<close> and the upper half if not.
\<close>

fun bisection_spec ::
  "nat \<Rightarrow> (real \<Rightarrow> error + real) \<Rightarrow> real \<Rightarrow> real \<Rightarrow> real \<Rightarrow> error + float_result" where
  "bisection_spec 0 f tol low high = Inr NaN"
| "bisection_spec (Suc n) f tol low high =
     (case f ((low + high) / 2) of
        Inl e \<Rightarrow> Inl e
      | Inr f_mid \<Rightarrow>
          if \<bar>f_mid\<bar> < tol \<or> high - low < tol then Inr (Val ((low + high) / 2))
          else
            (case f low of
               Inl e \<Rightarrow> Inl e
             | Inr f_low \<Rightarrow>
                 if f_low * f_mid \<le> 0 then bisection_spec n f tol low ((low + high) / 2)
                 else bisection_spec n f tol ((low + high) / 2) high))"

definition implied_vol_bisection_spec ::
  "(real \<Rightarrow> error + real) \<Rightarrow> real \<Rightarrow> int \<Rightarrow> real \<Rightarrow> real \<Rightarrow> error + float_result" where
  "implied_vol_bisection_spec f tol max_iter sigma_low sigma_high =
     (case f sigma_low of
        Inl e \<Rightarrow> Inl e
      | Inr f_low \<Rightarrow>
          (case f sigma_high of
             Inl e \<Rightarrow> Inl e
           | Inr f_high \<Rightarrow>
               if f_low * f_high > 0 then Inr NaN
               else bisection_spec (nat max_iter) f tol sigma_low sigma_high))"


subsection \<open>An antiderivative of the powers of the cosine\<close>


section \<open>Properties\<close>

subsection \<open>Normalisation of the option side\<close>

lemma normalize_side_call: "normalize_side ''call'' = ''call''" by code_simp
lemma normalize_side_put: "normalize_side ''put'' = ''put''" by code_simp

lemma of_char_lower_char:
  "(of_char (lower_char c) :: nat) =
     (let n = (of_char c :: nat)
      in if (65 \<le> n \<and> n \<le> 90) \<or> (192 \<le> n \<and> n \<le> 222 \<and> n \<noteq> 215) then n + 32 else n)"
proof -
  have "(of_char c :: nat) < 256" by simp
  then show ?thesis
    by (auto simp: lower_char_def Let_def)
qed

lemma lower_char_idem: "lower_char (lower_char c) = lower_char c"
proof -
  have "(of_char (lower_char (lower_char c)) :: nat) = of_char (lower_char c)"
    by (simp add: of_char_lower_char [of "lower_char c"] Let_def)
       (auto simp: of_char_lower_char Let_def)
  then show ?thesis by (metis char_of_char)
qed

lemma isspace_lower_char: "isspace (lower_char c) = isspace c"
  by (auto simp: isspace_def of_char_lower_char Let_def)

lemma lower_idem: "lower (lower s) = lower s"
  by (simp add: lower_def lower_char_idem)

lemma dropWhile_isspace_lower: "dropWhile isspace (lower s) = lower (dropWhile isspace s)"
  by (induction s) (simp_all add: lower_def isspace_lower_char)

lemma lower_rev: "lower (rev s) = rev (lower s)"
  by (simp add: lower_def rev_map)

lemma lower_strip: "lower (strip s) = strip (lower s)"
  by (simp add: strip_def lower_rev dropWhile_isspace_lower [symmetric])

lemma dropWhile_rev_dropWhile:
  "dropWhile P (rev (dropWhile P (rev (dropWhile P s)))) = rev (dropWhile P (rev (dropWhile P s)))"
proof (cases "dropWhile P s")
  case Nil
  show ?thesis unfolding Nil by simp
next
  case (Cons a list)
  then have na: "\<not> P a" by (metis hd_dropWhile list.sel(1) list.distinct(1))
  have "rev (dropWhile P (rev (a # list))) \<noteq> []"
    using na by (auto simp: dropWhile_append)
  moreover have "hd (rev (dropWhile P (rev (a # list)))) = a"
    using na by (induction list rule: rev_induct) (auto simp: dropWhile_append)
  ultimately show ?thesis using na Cons
    by (cases "rev (dropWhile P (rev (a # list)))") auto
qed

lemma strip_idem: "strip (strip s) = strip s"
  by (simp add: strip_def dropWhile_rev_dropWhile)

lemma normalize_side_idem: "normalize_side (normalize_side s) = normalize_side s"
  by (simp add: normalize_side_def lower_strip lower_idem strip_idem)

lemma validate_inputs_ok:
  "0 < S \<Longrightarrow> 0 < K \<Longrightarrow> 0 \<le> T \<Longrightarrow> 0 \<le> sigma \<Longrightarrow> validate_inputs S K T sigma = Inr ()"
  by (simp add: validate_inputs_def)

lemma validate_inputs_not_side_error:
  "validate_inputs S K T sigma \<noteq> Inl (ValueError option_type_msg)"
  by (simp add: validate_inputs_def option_type_msg_def)

lemma price_side_error_iff:
  "(black_scholes_price side S K T r q sigma = Inl (ValueError option_type_msg)) =
     (normalize_side side \<noteq> ''call'' \<and> normalize_side side \<noteq> ''put'')"
  using validate_inputs_not_side_error [of S K T sigma]
  by (auto simp: black_scholes_price_def Let_def split: sum.splits)

lemma vega_not_side_error:
  "black_scholes_vega S K T r q sigma \<noteq> Inl (ValueError option_type_msg)"
  using validate_inputs_not_side_error [of S K T sigma]
  by (auto simp: black_scholes_vega_def Let_def split: sum.splits)

lemma newton_loop_not_side_error:
  "normalize_side ot = ''call'' \<or> normalize_side ot = ''put'' \<Longrightarrow>
   newton_loop n ot mp S K T r q tol vf smin smax sigma \<noteq> Inl (ValueError option_type_msg)"
proof (induction n arbitrary: sigma)
  case 0
  show ?case by simp
next
  case (Suc n)
  have p: "black_scholes_price ot S K T r q sigma \<noteq> Inl (ValueError option_type_msg)"
    using Suc.prems by (simp add: price_side_error_iff)
  show ?case
    using p vega_not_side_error [of S K T r q sigma] Suc.IH [OF Suc.prems]
    by (auto simp: Let_def py_div_def split: sum.splits)
qed

lemma bisection_loop_not_side_error:
  "normalize_side ot = ''call'' \<or> normalize_side ot = ''put'' \<Longrightarrow>
   bisection_loop n ot mp S K T r q tol lo hi fl fh \<noteq> Inl (ValueError option_type_msg)"
proof (induction n arbitrary: lo hi fl fh)
  case 0
  show ?case by simp
next
  case (Suc n)
  have p: "black_scholes_price ot S K T r q (1 / 2 * (lo + hi)) \<noteq> Inl (ValueError option_type_msg)"
    using Suc.prems by (simp add: price_side_error_iff)
  show ?case
    using p Suc.IH [OF Suc.prems]
    by (auto simp: Let_def split: sum.splits)
qed

lemma newton_side_error_iff:
  "(implied_vol_newton side mp S K T r q init tol mi vf smin smax eb = Inl (ValueError option_type_msg)) =
     (normalize_side side \<noteq> ''call'' \<and> normalize_side side \<noteq> ''put'')"
proof (cases "normalize_side side = ''call'' \<or> normalize_side side = ''put''")
  case True
  then have v: "normalize_side (normalize_side side) = ''call'' \<or> normalize_side (normalize_side side) = ''put''"
    by (simp add: normalize_side_idem)
  show ?thesis
    using True newton_loop_not_side_error [OF v]
    by (auto simp: implied_vol_newton_def Let_def)
next
  case False
  then show ?thesis by (simp add: implied_vol_newton_def Let_def)
qed

lemma bisection_side_error_iff:
  "(implied_vol_bisection side mp S K T r q tol mi lo hi eb = Inl (ValueError option_type_msg)) =
     (normalize_side side \<noteq> ''call'' \<and> normalize_side side \<noteq> ''put'')"
proof (cases "normalize_side side = ''call'' \<or> normalize_side side = ''put''")
  case True
  then have v: "normalize_side (normalize_side side) = ''call'' \<or> normalize_side (normalize_side side) = ''put''"
    by (simp add: normalize_side_idem)
  have p: "\<And>s. black_scholes_price (normalize_side side) S K T r q s \<noteq> Inl (ValueError option_type_msg)"
    using v by (simp add: price_side_error_iff)
  show ?thesis
    using True bisection_loop_not_side_error [OF v] p
    by (auto simp: implied_vol_bisection_def Let_def split: sum.splits)
next
  case False
  then show ?thesis by (simp add: implied_vol_bisection_def Let_def)
qed

lemma price_normalize: "black_scholes_price (normalize_side side) S K T r q sigma = black_scholes_price side S K T r q sigma"
  by (simp add: black_scholes_price_def normalize_side_idem)

lemma newton_normalize: "implied_vol_newton (normalize_side side) mp S K T r q init tol mi vf smin smax eb
   = implied_vol_newton side mp S K T r q init tol mi vf smin smax eb"
  by (simp add: implied_vol_newton_def normalize_side_idem)

lemma bisection_normalize: "implied_vol_bisection (normalize_side side) mp S K T r q tol mi lo hi eb
  = implied_vol_bisection side mp S K T r q tol mi lo hi eb"
  by (simp add: implied_vol_bisection_def normalize_side_idem)

text \<open>
  Claim C10. Each entry point that takes an option side lower-cases and strips it before
  the check: the side error is raised exactly when the normalised side is neither
  \<open>call\<close> nor \<open>put\<close>, a side is treated as its normalised form, and \<open>CALL\<close> and
  \<open>Put\<close> between blanks normalise to \<open>call\<close> and \<open>put\<close>.
\<close>
theorem option_side_normalization:
  "(black_scholes_price side S K T r q sigma = Inl (ValueError option_type_msg)) =
     (normalize_side side \<noteq> ''call'' \<and> normalize_side side \<noteq> ''put'') \<and>
   (implied_vol_newton side mp S K T r q init tol mi vf smin smax eb = Inl (ValueError option_type_msg)) =
     (normalize_side side \<noteq> ''call'' \<and> normalize_side side \<noteq> ''put'') \<and>
   (implied_vol_bisection side mp S K T r q tol' mi' lo hi eb' = Inl (ValueError option_type_msg)) =
     (normalize_side side \<noteq> ''call'' \<and> normalize_side side \<noteq> ''put'') \<and>
   black_scholes_price side S K T r q sigma = black_scholes_price (normalize_side side) S K T r q sigma \<and>
   implied_vol_newton side mp S K T r q init tol mi vf smin smax eb =
     implied_vol_newton (normalize_side side) mp S K T r q init tol mi vf smin smax eb \<and>
   implied_vol_bisection side mp S K T r q tol' mi' lo hi eb' =
     implied_vol_bisection (normalize_side side) mp S K T r q tol' mi' lo hi eb' \<and>
   normalize_side ''CALL'' = ''call'' \<and> normalize_side '' Put '' = ''put''"
proof -
  have "normalize_side ''CALL'' = ''call''" by code_simp
  moreover have "normalize_side '' Put '' = ''put''" by code_simp
  ultimately show ?thesis
  by (simp only: price_side_error_iff newton_side_error_iff bisection_side_error_iff
      price_normalize newton_normalize bisection_normalize simp_thms)
qed

theorem option_side_normalization_witness:
  "black_scholes_price ''CALL'' 100 90 0 0 0 0 \<noteq> Inl (ValueError option_type_msg) \<and>
   black_scholes_price '' Put '' 100 90 0 0 0 0 \<noteq> Inl (ValueError option_type_msg) \<and>
   black_scholes_price ''c a l l'' 100 90 0 0 0 0 = Inl (ValueError option_type_msg) \<and>
   implied_vol_newton ''c a l l'' 1 100 90 1 0 0 0 0 0 0 0 0 True = Inl (ValueError option_type_msg) \<and>
   implied_vol_bisection ''c a l l'' 1 100 90 1 0 0 0 0 0 0 True = Inl (ValueError option_type_msg)"
proof -
  have s: "normalize_side ''c a l l'' = ''c a l l''" by code_simp
  have c: "normalize_side ''CALL'' = ''call''" by code_simp
  have p: "normalize_side '' Put '' = ''put''" by code_simp
  note n = option_side_normalization [THEN conjunct1]
  note m = option_side_normalization [THEN conjunct2, THEN conjunct1]
  note b = option_side_normalization [THEN conjunct2, THEN conjunct2, THEN conjunct1]
  show ?thesis
    by (simp add: n m b s c p)
qed

text \<open>
  Claim C7. At \<open>T = 0\<close> the price is the undiscounted intrinsic value: \<open>max (S - K) 0\<close>
  for a call and \<open>max (K - S) 0\<close> for a put.
\<close>
theorem expiry_intrinsic_value:
  "0 < S \<Longrightarrow> 0 < K \<Longrightarrow> 0 \<le> sigma \<Longrightarrow>
   black_scholes_price side S K 0 r q sigma =
     (if normalize_side side = ''call'' then Inr (max (S - K) 0)
      else if normalize_side side = ''put'' then Inr (max (K - S) 0)
      else Inl (ValueError option_type_msg))"
  by (simp add: black_scholes_price_def validate_inputs_def)

theorem expiry_intrinsic_value_witness:
  "black_scholes_price ''call'' 100 90 0 (5 / 100) 0 (2 / 10) = Inr 10 \<and>
   black_scholes_price ''put'' 100 90 0 (5 / 100) 0 (2 / 10) = Inr 0"
  using expiry_intrinsic_value [of 100 90 "2 / 10" "''call''" "5 / 100" 0]
        expiry_intrinsic_value [of 100 90 "2 / 10" "''put''" "5 / 100" 0]
  by (simp add: normalize_side_call normalize_side_put)

text \<open>
  Claim C8. For \<open>T > 0\<close> and \<open>sigma = 0\<close> the price is the discounted payoff at the
  deterministic forward \<open>S * exp ((r - q) * T)\<close>.
\<close>
theorem zero_volatility_forward:
  "0 < S \<Longrightarrow> 0 < K \<Longrightarrow> 0 < T \<Longrightarrow>
   black_scholes_price side S K T r q 0 =
     (if normalize_side side = ''call''
        then Inr (exp (- r * T) * max (S * exp ((r - q) * T) - K) 0)
      else if normalize_side side = ''put''
        then Inr (exp (- r * T) * max (K - S * exp ((r - q) * T)) 0)
      else Inl (ValueError option_type_msg))"
  by (simp add: black_scholes_price_def validate_inputs_def Let_def)

theorem zero_volatility_forward_witness:
  "black_scholes_price ''call'' 100 100 1 (5 / 100) 0 0 =
     Inr (exp (- (5 / 100)) * max (100 * exp (5 / 100) - 100) 0)"
  using zero_volatility_forward [of 100 100 1 "''call''" "5 / 100" 0]
  by (simp add: normalize_side_call)

text \<open>
  Claim C9. \<open>black_scholes_price\<close> raises \<open>ValueError\<close> whenever \<open>S \<le> 0\<close>, \<open>K \<le> 0\<close>,
  \<open>T < 0\<close>, \<open>sigma < 0\<close> or the side does not normalise to \<open>call\<close> or \<open>put\<close>, and
  \<open>black_scholes_vega\<close> whenever \<open>S \<le> 0\<close>, \<open>K \<le> 0\<close>, \<open>T < 0\<close> or \<open>sigma < 0\<close>: no
  price, vega or sentinel is returned on such an input.
\<close>
theorem structural_errors:
  "(S \<le> 0 \<or> K \<le> 0 \<or> T < 0 \<or> sigma < 0 \<or>
      (normalize_side side \<noteq> ''call'' \<and> normalize_side side \<noteq> ''put'')
     \<longrightarrow> (\<exists>msg. black_scholes_price side S K T r q sigma = Inl (ValueError msg))) \<and>
   (S \<le> 0 \<or> K \<le> 0 \<or> T < 0 \<or> sigma < 0
     \<longrightarrow> (\<exists>msg. black_scholes_vega S K T r q sigma = Inl (ValueError msg)))"
  by (auto simp: black_scholes_price_def black_scholes_vega_def validate_inputs_def Let_def)

theorem structural_errors_witness:
  "(\<exists>msg. black_scholes_price ''call'' 0 100 1 0 0 (2 / 10) = Inl (ValueError msg)) \<and>
   (\<exists>msg. black_scholes_price ''put'' 100 (- 5) 1 0 0 (2 / 10) = Inl (ValueError msg)) \<and>
   (\<exists>msg. black_scholes_price ''call'' 100 100 (- 1) 0 0 (2 / 10) = Inl (ValueError msg)) \<and>
   (\<exists>msg. black_scholes_price ''call'' 100 100 1 0 0 (- 2 / 10) = Inl (ValueError msg)) \<and>
   (\<exists>msg. black_scholes_price ''straddle'' 100 100 1 0 0 (2 / 10) = Inl (ValueError msg)) \<and>
   (\<exists>msg. black_scholes_vega 0 100 1 0 0 (2 / 10) = Inl (ValueError msg)) \<and>
   (\<exists>msg. black_scholes_vega 100 100 1 0 0 (- 2 / 10) = Inl (ValueError msg))"
proof -
  have s: "normalize_side ''straddle'' = ''straddle''" by code_simp
  show ?thesis
    using structural_errors [of 0 100 1 "2 / 10" "''call''" 0 0]
      structural_errors [of 100 "- 5" 1 "2 / 10" "''put''" 0 0]
      structural_errors [of 100 100 "- 1" "2 / 10" "''call''" 0 0]
      structural_errors [of 100 100 1 "- 2 / 10" "''call''" 0 0]
      structural_errors [of 100 100 1 "2 / 10" "''straddle''" 0 0]
    by (simp add: s)
qed

lemma no_arbitrage_bounds_flat:
  "no_arbitrage_bounds ot S K T 0 0 =
     (if ot = ''call'' then (max 0 (S - K), S) else (max 0 (K - S), K))"
  by (simp add: no_arbitrage_bounds_def)

text \<open>
  Claim C4. For a valid side, both solvers return the sentinel, whatever the other
  arguments are (so before any pricing), when the market price is negative, when
  \<open>T \<le> 0\<close>, or when bounds are enforced and the market price is more than \<open>1e-12\<close>
  below the lower or above the upper no-arbitrage bound.
\<close>
theorem immediate_rejection:
  assumes "normalize_side side = ''call'' \<or> normalize_side side = ''put''"
    and "market_price < 0 \<or> T \<le> 0 \<or>
         (enforce_bounds \<and>
           (market_price < fst (no_arbitrage_bounds (normalize_side side) S K T r q) - 1 / 10 ^ 12 \<or>
            snd (no_arbitrage_bounds (normalize_side side) S K T r q) + 1 / 10 ^ 12 < market_price))"
  shows "implied_vol_newton side market_price S K T r q initial_sigma tol max_iter vega_floor
           sigma_min sigma_max enforce_bounds = Inr NaN \<and>
         implied_vol_bisection side market_price S K T r q tol' max_iter' sigma_low sigma_high
           enforce_bounds = Inr NaN"
proof -
  have ob: "enforce_bounds \<and>
      (market_price < fst (no_arbitrage_bounds (normalize_side side) S K T r q) - 1 / 10 ^ 12 \<or>
       snd (no_arbitrage_bounds (normalize_side side) S K T r q) + 1 / 10 ^ 12 < market_price)
     \<Longrightarrow> outside_bounds (normalize_side side) market_price S K T r q"
    by (auto simp: outside_bounds_def split: prod.splits)
  show ?thesis
    using assms ob
    by (auto simp: implied_vol_newton_def implied_vol_bisection_def Let_def)
qed

theorem immediate_rejection_witness:
  "implied_vol_newton ''call'' (- 1) 100 100 1 0 0 (2 / 10) (1 / 10 ^ 7) 100 (1 / 10 ^ 10)
     (1 / 10 ^ 6) 5 True = Inr NaN \<and>
   implied_vol_bisection ''call'' (- 1) 100 100 1 0 0 (1 / 10 ^ 7) 200 (1 / 10 ^ 6) 5 True = Inr NaN \<and>
   implied_vol_newton ''put'' 3 100 100 0 0 0 (2 / 10) (1 / 10 ^ 7) 100 (1 / 10 ^ 10)
     (1 / 10 ^ 6) 5 False = Inr NaN \<and>
   implied_vol_bisection ''put'' 3 100 100 0 0 0 (1 / 10 ^ 7) 200 (1 / 10 ^ 6) 5 False = Inr NaN \<and>
   implied_vol_newton ''call'' 110 100 100 1 0 0 (2 / 10) (1 / 10 ^ 7) 100 (1 / 10 ^ 10)
     (1 / 10 ^ 6) 5 True = Inr NaN \<and>
   implied_vol_bisection ''call'' 110 100 100 1 0 0 (1 / 10 ^ 7) 200 (1 / 10 ^ 6) 5 True = Inr NaN \<and>
   implied_vol_newton ''put'' 0 100 110 1 0 0 (2 / 10) (1 / 10 ^ 7) 100 (1 / 10 ^ 10)
     (1 / 10 ^ 6) 5 True = Inr NaN \<and>
   implied_vol_bisection ''put'' 0 100 110 1 0 0 (1 / 10 ^ 7) 200 (1 / 10 ^ 6) 5 True = Inr NaN"
  using immediate_rejection [of "''call''" "- 1" 1 True 100 100 0 0 "2 / 10" "1 / 10 ^ 7" 100
          "1 / 10 ^ 10" "1 / 10 ^ 6" 5 "1 / 10 ^ 7" 200 "1 / 10 ^ 6" 5]
        immediate_rejection [of "''put''" 3 0 False 100 100 0 0 "2 / 10" "1 / 10 ^ 7" 100
          "1 / 10 ^ 10" "1 / 10 ^ 6" 5 "1 / 10 ^ 7" 200 "1 / 10 ^ 6" 5]
        immediate_rejection [of "''call''" 110 1 True 100 100 0 0 "2 / 10" "1 / 10 ^ 7" 100
          "1 / 10 ^ 10" "1 / 10 ^ 6" 5 "1 / 10 ^ 7" 200 "1 / 10 ^ 6" 5]
        immediate_rejection [of "''put''" 0 1 True 100 110 0 0 "2 / 10" "1 / 10 ^ 7" 100
          "1 / 10 ^ 10" "1 / 10 ^ 6" 5 "1 / 10 ^ 7" 200 "1 / 10 ^ 6" 5]
  by (simp add: normalize_side_call normalize_side_put no_arbitrage_bounds_flat)

subsection \<open>The standard normal distribution function\<close>

lemma cdf_term_abs_le:
  "\<bar>cdf_term x n\<bar> \<le> \<bar>x\<bar> * ((x * x / 2) ^ n /\<^sub>R fact n)"
proof -
  have "(2::real) ^ n * fact n * 1 \<le> 2 ^ n * fact n * real (2 * n + 1)"
    by (intro mult_left_mono) simp_all
  then have d: "(2::real) ^ n * fact n \<le> 2 ^ n * fact n * real (2 * n + 1)"
    by simp
  have "\<bar>cdf_term x n\<bar> = \<bar>x\<bar> ^ (2 * n + 1) / (2 ^ n * fact n * real (2 * n + 1))"
    by (simp add: cdf_term_def abs_mult power_abs)
  also have "\<dots> \<le> \<bar>x\<bar> ^ (2 * n + 1) / (2 ^ n * fact n)"
    by (rule divide_left_mono [OF d]) simp_all
  also have "\<dots> = \<bar>x\<bar> * ((x * x / 2) ^ n /\<^sub>R fact n)"
  proof -
    have "\<bar>x\<bar> ^ (2 * n) = (x * x) ^ n"
      by (metis abs_mult_self_eq power2_eq_square power_mult)
    then have "\<bar>x\<bar> ^ (2 * n + 1) = \<bar>x\<bar> * (x * x) ^ n"
      by simp
    then show ?thesis
      by (simp add: field_simps)
  qed
  finally show ?thesis .
qed

lemma summable_exp_bound: "summable (\<lambda>n. \<bar>x :: real\<bar> * ((x * x / 2) ^ n /\<^sub>R fact n))"
  by (intro summable_mult summable_exp_generic)

lemma suminf_exp_bound:
  "(\<Sum>n. \<bar>x :: real\<bar> * ((x * x / 2) ^ n /\<^sub>R fact n)) = \<bar>x\<bar> * exp (x * x / 2)"
  unfolding exp_def by (rule suminf_mult [OF summable_exp_generic])

lemma cdf_term_0: "cdf_term x 0 = x"
  by (simp add: cdf_term_def)

lemma summable_cdf_term: "summable (cdf_term x)"
  by (rule summable_comparison_test' [OF summable_exp_bound [of x], of 0])
     (simp only: real_norm_def cdf_term_abs_le)

lemma suminf_cdf_term_abs_le: "\<bar>\<Sum>n. cdf_term x n\<bar> \<le> \<bar>x\<bar> * exp (x * x / 2)"
proof -
  have "norm (\<Sum>n. cdf_term x n) \<le> (\<Sum>n. \<bar>x\<bar> * ((x * x / 2) ^ n /\<^sub>R fact n))"
    by (rule norm_suminf_le [OF _ summable_exp_bound]) (simp only: real_norm_def cdf_term_abs_le)
  also have "\<dots> = \<bar>x\<bar> * exp (x * x / 2)"
    by (rule suminf_exp_bound)
  finally show ?thesis by simp
qed

lemma cdf_term_minus: "cdf_term (- x) n = - cdf_term x n"
  by (simp add: cdf_term_def)


lemma norm_cdf_minus: "norm_cdf (- x) = 1 - norm_cdf x"
  by (simp add: norm_cdf_def cdf_term_minus suminf_minus [OF summable_cdf_term])

lemma suminf_cdf_term_near: "\<bar>(\<Sum>n. cdf_term x n) - x\<bar> \<le> \<bar>x\<bar> * (exp (x * x / 2) - 1)"
proof -
  let ?g = "\<lambda>n. \<bar>x\<bar> * ((x * x / 2) ^ n /\<^sub>R fact n)"
  have s: "summable (\<lambda>n. cdf_term x (Suc n))"
    by (rule iffD2 [OF summable_Suc_iff summable_cdf_term])
  have sg: "summable (\<lambda>n. ?g (Suc n))"
    by (rule iffD2 [OF summable_Suc_iff summable_exp_bound])
  have "(\<Sum>n. cdf_term x n) - x = (\<Sum>n. cdf_term x (Suc n))"
    using suminf_split_head [OF summable_cdf_term [of x]] by (simp only: cdf_term_0)
  moreover have "norm (\<Sum>n. cdf_term x (Suc n)) \<le> (\<Sum>n. ?g (Suc n))"
    by (rule norm_suminf_le [OF _ sg]) (simp only: real_norm_def cdf_term_abs_le)
  moreover have "(\<Sum>n. ?g (Suc n)) = (\<Sum>n. ?g n) - ?g 0"
    by (rule suminf_split_head [OF summable_exp_bound])
  moreover have "(\<Sum>n. ?g n) = \<bar>x\<bar> * exp (x * x / 2)"
    by (rule suminf_exp_bound)
  moreover have "?g 0 = \<bar>x\<bar>" by simp
  ultimately have "\<bar>(\<Sum>n. cdf_term x n) - x\<bar> \<le> \<bar>x\<bar> * exp (x * x / 2) - \<bar>x\<bar>"
    unfolding real_norm_def by linarith
  then show ?thesis by (simp add: right_diff_distrib)
qed

lemma sqrt_two_pi_ge: "2 \<le> sqrt (2 * pi)"
proof -
  have "sqrt 4 \<le> sqrt (2 * pi)" using pi_ge_two by (intro real_sqrt_le_mono) simp
  then show ?thesis by simp
qed

lemma norm_cdf_unit_bounds:
  assumes "0 \<le> x" "x \<le> 1"
  shows "1 / 2 \<le> norm_cdf x" and "norm_cdf x \<le> 1 / 2 + x * (1 + x * x) / 2"
proof -
  have xx: "0 \<le> x * x" "x * x \<le> 1" using assms by (simp_all add: mult_le_one)
  have e: "exp (x * x / 2) \<le> 1 + x * x"
    using real_exp_bound_lemma [of "x * x / 2"] xx by simp
  have "x * (exp (x * x / 2) - 1) \<le> x * (x * x)"
    using e assms by (intro mult_left_mono) simp_all
  then have n: "\<bar>(\<Sum>n. cdf_term x n) - x\<bar> \<le> x * (x * x)"
    using suminf_cdf_term_near [of x] assms by simp
  have "x * (x * x) \<le> x * 1" using xx assms by (intro mult_left_mono) simp_all
  then have lo: "0 \<le> (\<Sum>n. cdf_term x n)" using n by linarith
  have "x * (1 + x * x) = x + x * (x * x)" by (simp add: distrib_left)
  then have hi: "(\<Sum>n. cdf_term x n) \<le> x * (1 + x * x)" using n by linarith
  show "1 / 2 \<le> norm_cdf x" using lo by (simp add: norm_cdf_def)
  have "(\<Sum>n. cdf_term x n) / sqrt (2 * pi) \<le> (\<Sum>n. cdf_term x n) / 2"
    using lo sqrt_two_pi_ge by (intro divide_left_mono) simp_all
  also have "\<dots> \<le> x * (1 + x * x) / 2" using hi by simp
  finally show "norm_cdf x \<le> 1 / 2 + x * (1 + x * x) / 2" by (simp add: norm_cdf_def)
qed

text \<open>
  The series is the distribution function: its derivative is the density, and its value
  at \<open>0\<close> is \<open>1/2\<close>. The series of \<open>norm_cdf\<close> is \<open>x * h (x * x)\<close> for a power series
  \<open>h\<close>, differentiated term by term.
\<close>

lemma cdf_coeff_term:
  "cdf_term x n = x * (((- 1 / 2) ^ n / (fact n * real (2 * n + 1))) * (x * x) ^ n)"
proof -
  have e1: "x ^ (2 * n + 1) = x * (x * x) ^ n"
    by (simp add: power_mult power2_eq_square)
  have e2: "(- 1 / 2 :: real) ^ n = (- 1) ^ n / 2 ^ n"
    by (simp only: power_divide)
  show ?thesis
    unfolding cdf_term_def e1 e2 by (simp add: field_simps)
qed

lemma summable_cdf_coeff:
  "summable (\<lambda>n. ((- 1 / 2) ^ n / (fact n * real (2 * n + 1))) * (y :: real) ^ n)"
proof (rule summable_comparison_test' [OF summable_exp_generic [of "\<bar>y\<bar> / 2"], of 0])
  fix n :: nat
  have "(1::real) \<le> real (2 * n + 1)" by simp
  then have "fact n * 1 \<le> fact n * real (2 * n + 1)"
    by (intro mult_left_mono) simp_all
  then have d: "(fact n :: real) \<le> fact n * real (2 * n + 1)" by simp
  have "norm (((- 1 / 2) ^ n / (fact n * real (2 * n + 1))) * y ^ n)
        = (\<bar>y\<bar> / 2) ^ n / (fact n * real (2 * n + 1))"
    by (simp add: abs_mult power_abs power_divide)
  also have "\<dots> \<le> (\<bar>y\<bar> / 2) ^ n / fact n"
    by (rule divide_left_mono [OF d]) simp_all
  also have "\<dots> = (\<bar>y\<bar> / 2) ^ n /\<^sub>R fact n"
    by (simp add: field_simps)
  finally show "norm (((- 1 / 2) ^ n / (fact n * real (2 * n + 1))) * y ^ n)
        \<le> (\<bar>y\<bar> / 2) ^ n /\<^sub>R fact n" .
qed

lemma cdf_coeff_deriv_sum:
  fixes y :: real
  defines "c \<equiv> \<lambda>n. (- 1 / 2) ^ n / (fact n * real (2 * n + 1))"
  shows "(\<Sum>n. c n * y ^ n) + 2 * y * (\<Sum>n. diffs c n * y ^ n) = exp (- y / 2)"
proof -
  have sc: "\<And>z. summable (\<lambda>n. c n * z ^ n)"
    unfolding c_def by (rule summable_cdf_coeff)
  have a: "(\<lambda>n. c n * y ^ n) sums (\<Sum>n. c n * y ^ n)"
    by (rule summable_sums [OF sc])
  have "(\<lambda>n. diffs c n * y ^ n) sums (\<Sum>n. diffs c n * y ^ n)"
    by (rule summable_sums [OF termdiff_converges_all [OF sc]])
  then have "(\<lambda>n. 2 * y * (diffs c n * y ^ n)) sums (2 * y * (\<Sum>n. diffs c n * y ^ n))"
    by (rule sums_mult)
  moreover have "2 * y * (diffs c n * y ^ n) = 2 * real (Suc n) * c (Suc n) * y ^ Suc n" for n
    by (simp add: diffs_def)
  ultimately have "(\<lambda>n. 2 * real (Suc n) * c (Suc n) * y ^ Suc n)
                     sums (2 * y * (\<Sum>n. diffs c n * y ^ n))"
    by simp
  then have "(\<lambda>n. 2 * real n * c n * y ^ n)
               sums (2 * y * (\<Sum>n. diffs c n * y ^ n) + 2 * real 0 * c 0 * y ^ 0)"
    by (rule sums_Suc)
  then have b: "(\<lambda>n. 2 * real n * c n * y ^ n) sums (2 * y * (\<Sum>n. diffs c n * y ^ n))"
    by simp
  have "c n * y ^ n + 2 * real n * c n * y ^ n = (- y / 2) ^ n /\<^sub>R fact n" for n
  proof -
    have "c n * y ^ n + 2 * real n * c n * y ^ n = (real (2 * n + 1) * c n) * y ^ n"
      by (simp add: algebra_simps)
    also have "real (2 * n + 1) * c n = (- 1 / 2) ^ n / fact n"
      unfolding c_def by simp
    also have "(- 1 / 2) ^ n / fact n * y ^ n = (- y / 2) ^ n /\<^sub>R fact n"
    proof -
      have "- y / 2 = (- 1 / 2) * y" by simp
      then have "(- y / 2) ^ n = (- 1 / 2) ^ n * y ^ n"
        by (simp only: power_mult_distrib)
      then show ?thesis
        by (simp only: real_scaleR_def divide_inverse mult_ac)
    qed
    finally show ?thesis .
  qed
  then have "(\<lambda>n. c n * y ^ n + 2 * real n * c n * y ^ n) = (\<lambda>n. (- y / 2) ^ n /\<^sub>R fact n)"
    by (rule ext)
  moreover have "(\<lambda>n. c n * y ^ n + 2 * real n * c n * y ^ n)
          sums ((\<Sum>n. c n * y ^ n) + 2 * y * (\<Sum>n. diffs c n * y ^ n))"
    by (rule sums_add [OF a b])
  ultimately have "(\<lambda>n. (- y / 2) ^ n /\<^sub>R fact n)
          sums ((\<Sum>n. c n * y ^ n) + 2 * y * (\<Sum>n. diffs c n * y ^ n))"
    by simp
  then show ?thesis
    using exp_converges [of "- y / 2"] by (rule sums_unique2)
qed

lemma norm_cdf_deriv: "(norm_cdf has_real_derivative norm_pdf x) (at x)"
proof -
  define c :: "nat \<Rightarrow> real" where "c = (\<lambda>n. (- 1 / 2) ^ n / (fact n * real (2 * n + 1)))"
  define h where "h = (\<lambda>y :: real. \<Sum>n. c n * y ^ n)"
  define h' where "h' = (\<lambda>y :: real. \<Sum>n. diffs c n * y ^ n)"
  have sc: "\<And>z. summable (\<lambda>n. c n * z ^ n)"
    unfolding c_def by (rule summable_cdf_coeff)
  have dh: "(h has_real_derivative h' y) (at y)" for y
    unfolding h_def h'_def by (rule termdiffs_strong_converges_everywhere [OF sc])
  have series: "(\<Sum>n. cdf_term z n) = z * h (z * z)" for z
  proof -
    have "(\<Sum>n. cdf_term z n) = (\<Sum>n. z * (c n * (z * z) ^ n))"
      by (simp only: cdf_coeff_term c_def)
    also have "\<dots> = z * (\<Sum>n. c n * (z * z) ^ n)"
      by (rule suminf_mult [OF sc])
    finally show ?thesis by (simp add: h_def)
  qed
  have cdf: "norm_cdf = (\<lambda>z. 1 / 2 + z * h (z * z) / sqrt (2 * pi))"
    by (rule ext) (simp add: norm_cdf_def series)
  have sq: "((\<lambda>z. z * z) has_real_derivative (1 * x + 1 * x)) (at x)"
    by (rule DERIV_mult [OF DERIV_ident DERIV_ident])
  have comp: "((\<lambda>z. h (z * z)) has_real_derivative (h' (x * x) * (1 * x + 1 * x))) (at x)"
    by (rule DERIV_chain2 [OF dh sq])
  have prod: "((\<lambda>z. z * h (z * z)) has_real_derivative
                 (1 * h (x * x) + h' (x * x) * (1 * x + 1 * x) * x)) (at x)"
    by (rule DERIV_mult [OF DERIV_ident comp])
  have "h (x * x) + 2 * (x * x) * h' (x * x) = exp (- (x * x) / 2)"
    unfolding h_def h'_def c_def by (rule cdf_coeff_deriv_sum)
  moreover have "1 * h (x * x) + h' (x * x) * (1 * x + 1 * x) * x
                 = h (x * x) + 2 * (x * x) * h' (x * x)"
    by (simp add: algebra_simps)
  ultimately have "((\<lambda>z. z * h (z * z)) has_real_derivative exp (- (x * x) / 2)) (at x)"
    using prod by (simp only:)
  then have "((\<lambda>z. 1 / 2 + z * h (z * z) / sqrt (2 * pi)) has_real_derivative
               (0 + exp (- (x * x) / 2) / sqrt (2 * pi))) (at x)"
    by (intro DERIV_add DERIV_const DERIV_cdivide)
  then show ?thesis
    by (simp add: cdf norm_pdf_def)
qed

subsection \<open>Put--call parity\<close>

lemma price_call_closed_form:
  "0 < S \<Longrightarrow> 0 < K \<Longrightarrow> 0 < T \<Longrightarrow> 0 < sigma \<Longrightarrow>
   black_scholes_price ''call'' S K T r q sigma =
     Inr (S * exp (- q * T)
            * norm_cdf ((ln (S / K) + (r - q + 1 / 2 * sigma * sigma) * T) / (sigma * sqrt T))
          - K * exp (- r * T)
            * norm_cdf ((ln (S / K) + (r - q + 1 / 2 * sigma * sigma) * T) / (sigma * sqrt T)
                        - sigma * sqrt T))"
  by (simp add: black_scholes_price_def validate_inputs_def normalize_side_call Let_def)




subsection \<open>The solvers refine the iterations of the specification\<close>

lemma newton_loop_refines:
  "newton_loop n ot mp S K T r q tol vf smin smax sigma =
   newton_spec n (price_gap ot mp S K T r q) (black_scholes_vega S K T r q) tol vf smin smax sigma"
proof (induction n arbitrary: sigma)
  case 0
  show ?case by simp
next
  case (Suc n)
  show ?case
    by (simp add: price_gap_def Let_def Suc.IH split: sum.splits)
qed

lemma bisection_loop_refines:
  "price_gap ot mp S K T r q low = Inr f_low \<Longrightarrow>
   bisection_loop n ot mp S K T r q tol low high f_low f_high =
   bisection_spec n (price_gap ot mp S K T r q) tol low high"
proof (induction n arbitrary: low high f_low f_high)
  case 0
  show ?case by simp
next
  case (Suc n)
  let ?mid = "(low + high) / 2"
  show ?case
  proof (cases "price_gap ot mp S K T r q ?mid")
    case (Inl e)
    then show ?thesis
      by (auto simp: price_gap_def Let_def split: sum.splits)
  next
    case (Inr f_mid)
    then obtain pm where pm: "black_scholes_price ot S K T r q ?mid = Inr pm" "f_mid = pm - mp"
      by (auto simp: price_gap_def split: sum.splits)
    have lower: "bisection_loop n ot mp S K T r q tol low ?mid f_low f_mid =
                 bisection_spec n (price_gap ot mp S K T r q) tol low ?mid"
      by (rule Suc.IH [OF Suc.prems])
    have upper: "bisection_loop n ot mp S K T r q tol ?mid high f_mid f_high =
                 bisection_spec n (price_gap ot mp S K T r q) tol ?mid high"
      by (rule Suc.IH [OF Inr])
    show ?thesis
      using pm Inr Suc.prems lower upper
      by (simp add: Let_def)
  qed
qed

text \<open>
  Claim C3. Once the rejection checks have passed, \<^verbatim>\<open>implied_vol_newton\<close> is the Newton
  iteration of the specification, run for at most \<open>max_iter\<close> steps from the initial
  guess clamped by \<open>min (max initial_sigma sigma_min) sigma_max\<close>: converged on
  \<open>\<bar>diff\<bar> < tol\<close>, undefined on a vega below the floor, undefined without clamping
  when the updated value leaves \<open>[sigma_min, sigma_max]\<close>, undefined on exhaustion.
\<close>
theorem newton_iteration_semantics:
  assumes "normalize_side side = ''call'' \<or> normalize_side side = ''put''"
    and "0 \<le> market_price" and "0 < T"
    and "enforce_bounds \<longrightarrow>
           fst (no_arbitrage_bounds (normalize_side side) S K T r q) - 1 / 10 ^ 12 \<le> market_price \<and>
           market_price \<le> snd (no_arbitrage_bounds (normalize_side side) S K T r q) + 1 / 10 ^ 12"
  shows "implied_vol_newton side market_price S K T r q initial_sigma tol max_iter vega_floor
           sigma_min sigma_max enforce_bounds =
         newton_spec (nat max_iter) (price_gap (normalize_side side) market_price S K T r q)
           (black_scholes_vega S K T r q) tol vega_floor sigma_min sigma_max
           (min (max initial_sigma sigma_min) sigma_max)"
proof -
  have "\<not> (enforce_bounds \<and> outside_bounds (normalize_side side) market_price S K T r q)"
    using assms(4) by (auto simp: outside_bounds_def split: prod.splits)
  then show ?thesis
    using assms(1-3)
    by (auto simp: implied_vol_newton_def Let_def newton_loop_refines)
qed

text \<open>
  Claim C5. Once the rejection checks have passed, \<^verbatim>\<open>implied_vol_bisection\<close> is the
  bisection of the specification on \<open>f sigma = price sigma - market_price\<close>: undefined
  when \<open>f sigma_low * f sigma_high > 0\<close>, the midpoint when \<open>\<bar>f mid\<bar> < tol\<close> or the
  width is below \<open>tol\<close>, the lower half when \<open>f low * f mid \<le> 0\<close> and the upper half
  if not, undefined on exhaustion; the defaults of the bracket are \<open>1e-6\<close> and \<open>5\<close>.
\<close>
theorem bisection_semantics:
  assumes "normalize_side side = ''call'' \<or> normalize_side side = ''put''"
    and "0 \<le> market_price" and "0 < T"
    and "enforce_bounds \<longrightarrow>
           fst (no_arbitrage_bounds (normalize_side side) S K T r q) - 1 / 10 ^ 12 \<le> market_price \<and>
           market_price \<le> snd (no_arbitrage_bounds (normalize_side side) S K T r q) + 1 / 10 ^ 12"
  shows "implied_vol_bisection side market_price S K T r q tol max_iter sigma_low sigma_high
           enforce_bounds =
         implied_vol_bisection_spec (price_gap (normalize_side side) market_price S K T r q)
           tol max_iter sigma_low sigma_high \<and>
         bisection_sigma_low = 1 / 10 ^ 6 \<and> bisection_sigma_high = 5"
proof -
  have nb: "\<not> (enforce_bounds \<and> outside_bounds (normalize_side side) market_price S K T r q)"
    using assms(4) by (auto simp: outside_bounds_def split: prod.splits)
  have loop: "\<And>pl fh. black_scholes_price (normalize_side side) S K T r q sigma_low = Inr pl \<Longrightarrow>
      bisection_loop (nat max_iter) (normalize_side side) market_price S K T r q tol
        sigma_low sigma_high (pl - market_price) fh =
      bisection_spec (nat max_iter) (price_gap (normalize_side side) market_price S K T r q)
        tol sigma_low sigma_high"
    by (rule bisection_loop_refines) (simp add: price_gap_def)
  have "implied_vol_bisection side market_price S K T r q tol max_iter sigma_low sigma_high
           enforce_bounds =
         implied_vol_bisection_spec (price_gap (normalize_side side) market_price S K T r q)
           tol max_iter sigma_low sigma_high"
    using assms(1-3) nb
    by (auto simp: implied_vol_bisection_def implied_vol_bisection_spec_def Let_def loop
        price_gap_def split: sum.splits)
  then show ?thesis
    by (simp add: bisection_sigma_low_def bisection_sigma_high_def)
qed

theorem newton_iteration_semantics_witness:
  "implied_vol_newton ''call'' 10 100 95 1 0 0 (2 / 10) (1 / 10 ^ 7) 100 (1 / 10 ^ 10)
     (1 / 10 ^ 6) 5 True =
   newton_spec 100 (price_gap ''call'' 10 100 95 1 0 0) (black_scholes_vega 100 95 1 0 0)
     (1 / 10 ^ 7) (1 / 10 ^ 10) (1 / 10 ^ 6) 5 (2 / 10) \<and>
   implied_vol_newton ''call'' 5 100 95 1 0 0 (2 / 10) (1 / 10 ^ 7) 1 (1 / 10 ^ 10) 0 0 True =
     Inr (Val 0) \<and>
   implied_vol_newton ''call'' 10 100 95 1 0 0 (2 / 10) (1 / 10 ^ 7) 1 (1 / 10 ^ 10) 0 0 True =
     Inr NaN \<and>
   implied_vol_newton ''call'' 10 100 95 1 0 0 (2 / 10) (1 / 10 ^ 7) 1 0 0 0 True =
     Inl ZeroDivisionError \<and>
   implied_vol_newton ''call'' 5 100 95 1 0 0 (2 / 10) (1 / 10 ^ 7) 0 (1 / 10 ^ 10) 0 0 True =
     Inr NaN"
proof -
  have g: "price_gap ''call'' mp 100 95 1 0 0 0 = Inr (5 - mp)" for mp
    by (simp add: price_gap_def black_scholes_price_def validate_inputs_def normalize_side_call)
  have w: "black_scholes_vega 100 95 1 0 0 0 = Inr 0"
    by (simp add: black_scholes_vega_def validate_inputs_def)
  show ?thesis
    using newton_iteration_semantics [of "''call''" 10 1 True 100 95 0 0 "2 / 10" "1 / 10 ^ 7" 100
        "1 / 10 ^ 10" "1 / 10 ^ 6" 5]
      newton_iteration_semantics [of "''call''" 5 1 True 100 95 0 0 "2 / 10" "1 / 10 ^ 7" 1
        "1 / 10 ^ 10" 0 0]
      newton_iteration_semantics [of "''call''" 10 1 True 100 95 0 0 "2 / 10" "1 / 10 ^ 7" 1
        "1 / 10 ^ 10" 0 0]
      newton_iteration_semantics [of "''call''" 10 1 True 100 95 0 0 "2 / 10" "1 / 10 ^ 7" 1
        0 0 0]
      newton_iteration_semantics [of "''call''" 5 1 True 100 95 0 0 "2 / 10" "1 / 10 ^ 7" 0
        "1 / 10 ^ 10" 0 0]
    by (simp add: normalize_side_call no_arbitrage_bounds_flat g w py_div_def)
qed

theorem bisection_semantics_witness:
  "implied_vol_bisection ''call'' 10 100 95 1 0 0 (1 / 10 ^ 7) 200 (1 / 10 ^ 6) 5 True =
     implied_vol_bisection_spec (price_gap ''call'' 10 100 95 1 0 0) (1 / 10 ^ 7) 200
       (1 / 10 ^ 6) 5 \<and>
   implied_vol_bisection ''call'' 5 100 95 1 0 0 (1 / 10 ^ 7) 1 0 0 True = Inr (Val 0) \<and>
   implied_vol_bisection ''call'' 10 100 95 1 0 0 (1 / 10 ^ 7) 1 0 0 True = Inr NaN \<and>
   implied_vol_bisection ''call'' 5 100 95 1 0 0 0 0 0 0 True = Inr NaN"
proof -
  have g: "price_gap ''call'' mp 100 95 1 0 0 0 = Inr (5 - mp)" for mp
    by (simp add: price_gap_def black_scholes_price_def validate_inputs_def normalize_side_call)
  have h: "(0::real) \<le> 10" "(0::real) \<le> 5" "(0::real) < 1" by simp_all
  have b: "True \<longrightarrow>
           fst (no_arbitrage_bounds (normalize_side ''call'') 100 95 1 0 0) - 1 / 10 ^ 12 \<le> 10 \<and>
           10 \<le> snd (no_arbitrage_bounds (normalize_side ''call'') 100 95 1 0 0) + 1 / 10 ^ 12"
    by (simp add: normalize_side_call no_arbitrage_bounds_flat)
  have b': "True \<longrightarrow>
           fst (no_arbitrage_bounds (normalize_side ''call'') 100 95 1 0 0) - 1 / 10 ^ 12 \<le> 5 \<and>
           5 \<le> snd (no_arbitrage_bounds (normalize_side ''call'') 100 95 1 0 0) + 1 / 10 ^ 12"
    by (simp add: normalize_side_call no_arbitrage_bounds_flat)
  have v: "normalize_side ''call'' = ''call'' \<or> normalize_side ''call'' = ''put''"
    by (simp add: normalize_side_call)
  have c1: "implied_vol_bisection ''call'' 10 100 95 1 0 0 (1 / 10 ^ 7) 200 (1 / 10 ^ 6) 5 True =
     implied_vol_bisection_spec (price_gap ''call'' 10 100 95 1 0 0) (1 / 10 ^ 7) 200
       (1 / 10 ^ 6) 5"
    using bisection_semantics [OF v h(1) h(3) b, THEN conjunct1, of "1 / 10 ^ 7" 200 "1 / 10 ^ 6" 5]
    by (simp only: normalize_side_call)
  have c2: "implied_vol_bisection ''call'' 5 100 95 1 0 0 (1 / 10 ^ 7) 1 0 0 True = Inr (Val 0)"
    using bisection_semantics [OF v h(2) h(3) b', THEN conjunct1, of "1 / 10 ^ 7" 1 0 0]
    by (simp add: normalize_side_call implied_vol_bisection_spec_def g)
  have c3: "implied_vol_bisection ''call'' 10 100 95 1 0 0 (1 / 10 ^ 7) 1 0 0 True = Inr NaN"
    using bisection_semantics [OF v h(1) h(3) b, THEN conjunct1, of "1 / 10 ^ 7" 1 0 0]
    by (simp add: normalize_side_call implied_vol_bisection_spec_def g)
  have c4: "implied_vol_bisection ''call'' 5 100 95 1 0 0 0 0 0 0 True = Inr NaN"
    using bisection_semantics [OF v h(2) h(3) b', THEN conjunct1, of 0 0 0 0]
    by (simp add: normalize_side_call implied_vol_bisection_spec_def g)
  show ?thesis
    by (intro conjI c1 c2 c3 c4)
qed

subsection \<open>A spot of \<open>1e-8\<close>: prices below the tolerance\<close>

lemma newton_loop_converged:
  "0 < n \<Longrightarrow> black_scholes_price ot S K T r q sigma = Inr price \<Longrightarrow> \<bar>price - mp\<bar> < tol \<Longrightarrow>
   newton_loop n ot mp S K T r q tol vf smin smax sigma = Inr (Val sigma)"
  by (cases n) (simp_all add: Let_def)

text \<open>A call at the money on a spot of \<open>1e-8\<close>, one year, no rates.\<close>

lemma tiny_price:
  assumes "0 < sigma"
  shows "black_scholes_price ''call'' (1 / 10 ^ 8) (1 / 10 ^ 8) 1 0 0 sigma =
           Inr ((2 * norm_cdf (sigma / 2) - 1) / 10 ^ 8)"
proof -
  let ?d1 = "(ln (1 / 10 ^ 8 / (1 / 10 ^ 8 :: real)) + (0 - 0 + 1 / 2 * sigma * sigma) * 1)
               / (sigma * sqrt 1)"
  have d1: "?d1 = sigma / 2"
    using assms by simp
  have d2: "sigma / 2 - sigma * sqrt 1 = - (sigma / 2)"
    by simp
  have "black_scholes_price ''call'' (1 / 10 ^ 8) (1 / 10 ^ 8) 1 0 0 sigma =
          Inr (1 / 10 ^ 8 * exp (- 0 * 1) * norm_cdf ?d1
               - 1 / 10 ^ 8 * exp (- 0 * 1) * norm_cdf (?d1 - sigma * sqrt 1))"
    by (rule price_call_closed_form) (use assms in simp_all)
  also have "\<dots> = Inr (1 / 10 ^ 8 * exp (- 0 * 1) * norm_cdf (sigma / 2)
               - 1 / 10 ^ 8 * exp (- 0 * 1) * (1 - norm_cdf (sigma / 2)))"
    by (simp only: d1 d2 norm_cdf_minus)
  also have "\<dots> = Inr ((2 * norm_cdf (sigma / 2) - 1) / 10 ^ 8)"
    by (simp add: field_simps)
  finally show ?thesis .
qed

lemma two_cdf_bounds:
  assumes "0 \<le> x" "x \<le> 1"
  shows "0 \<le> 2 * norm_cdf x - 1" and "2 * norm_cdf x - 1 \<le> x * (1 + x * x)"
  using norm_cdf_unit_bounds [OF assms] by simp_all

lemma small_gap:
  fixes A B :: real
  assumes "0 \<le> A" "A \<le> 5 / 8" "0 \<le> B" "B \<le> 101 / 1000"
  shows "\<bar>B / 10 ^ 8 - A / 10 ^ 8\<bar> < 1 / 10 ^ 7"
proof -
  have "\<bar>B / 100000000 - A / 100000000\<bar> < 1 / 10000000"
    using assms by linarith
  then show ?thesis by simp
qed

lemma tiny_newton:
  "implied_vol_newton ''call'' ((2 * norm_cdf (1 / 2) - 1) / 10 ^ 8) (1 / 10 ^ 8) (1 / 10 ^ 8)
     1 0 0 (2 / 10) newton_tol newton_max_iter newton_vega_floor newton_sigma_min
     newton_sigma_max True = Inr (Val (2 / 10))"
proof -
  let ?mp = "(2 * norm_cdf (1 / 2) - 1) / 10 ^ 8 :: real"
  have a: "0 \<le> 2 * norm_cdf (1 / 2) - 1" "2 * norm_cdf (1 / 2) - 1 \<le> 5 / 8"
    using two_cdf_bounds [of "1 / 2"] by simp_all
  have b: "0 \<le> 2 * norm_cdf (1 / 10) - 1" "2 * norm_cdf (1 / 10) - 1 \<le> 101 / 1000"
    using two_cdf_bounds [of "1 / 10"] by simp_all
  have mp0: "0 \<le> ?mp" using a(1) by simp
  have mp1: "?mp \<le> 1 / 10 ^ 8" using a(2) by simp
  have nb: "\<not> outside_bounds ''call'' ?mp (1 / 10 ^ 8) (1 / 10 ^ 8) 1 0 0"
    using mp0 mp1 by (simp add: outside_bounds_def no_arbitrage_bounds_flat)
  have p: "black_scholes_price ''call'' (1 / 10 ^ 8) (1 / 10 ^ 8) 1 0 0 (2 / 10) =
             Inr ((2 * norm_cdf (1 / 10) - 1) / 10 ^ 8)"
    using tiny_price [of "2 / 10"] by simp
  have d: "\<bar>(2 * norm_cdf (1 / 10) - 1) / 10 ^ 8 - ?mp\<bar> < 1 / 10 ^ 7"
    by (rule small_gap [OF a b])
  have loop: "newton_loop (nat 100) ''call'' ?mp (1 / 10 ^ 8) (1 / 10 ^ 8) 1 0 0 (1 / 10 ^ 7)
                (1 / 10 ^ 10) (1 / 10 ^ 6) 5 (2 / 10) = Inr (Val (2 / 10))"
    by (rule newton_loop_converged [OF _ p d]) simp
  show ?thesis
    using mp0 nb loop
    by (simp add: implied_vol_newton_def normalize_side_call Let_def newton_tol_def
        newton_max_iter_def newton_vega_floor_def newton_sigma_min_def newton_sigma_max_def)
qed

subsection \<open>What a returned volatility satisfies\<close>

lemma price_defined:
  "normalize_side ot = ''call'' \<or> normalize_side ot = ''put'' \<Longrightarrow>
   0 < S \<Longrightarrow> 0 < K \<Longrightarrow> 0 \<le> T \<Longrightarrow> 0 \<le> sigma \<Longrightarrow>
   \<exists>p. black_scholes_price ot S K T r q sigma = Inr p"
  by (auto simp: black_scholes_price_def validate_inputs_def Let_def)





lemma bisection_loop_returns:
  assumes "normalize_side ot = ''call'' \<or> normalize_side ot = ''put''"
    and "0 < S" "0 < K" "0 < T"
  shows "0 \<le> low \<Longrightarrow> 0 \<le> high \<Longrightarrow>
         \<exists>res. bisection_loop n ot mp S K T r q tol low high f_low f_high = Inr res"
proof (induction n arbitrary: low high f_low f_high)
  case 0
  show ?case by simp
next
  case (Suc n)
  let ?mid = "1 / 2 * (low + high)"
  have m: "0 \<le> ?mid" using Suc.prems by simp
  obtain p where p: "black_scholes_price ot S K T r q ?mid = Inr p"
    using price_defined [OF assms(1-3), of T ?mid r q] assms(4) m by auto
  have lower: "\<exists>res. bisection_loop n ot mp S K T r q tol low ?mid f_low (p - mp) = Inr res"
    by (rule Suc.IH [OF Suc.prems(1) m])
  have upper: "\<exists>res. bisection_loop n ot mp S K T r q tol ?mid high (p - mp) f_high = Inr res"
    by (rule Suc.IH [OF m Suc.prems(2)])
  show ?case
    using p lower upper by (simp add: Let_def)
qed




subsection \<open>The dispatch of \<^verbatim>\<open>implied_vol\<close>\<close>

text \<open>
  Claim C2. \<^verbatim>\<open>implied_vol\<close> runs the Newton solver with the default parameters; its result
  is returned unchanged unless it is the sentinel, in which case the result is that of
  the bisection solver with its default parameters.
\<close>
theorem dispatch_policy:
  "implied_vol side market_price S K T r q initial_sigma =
     (let newton = implied_vol_newton side market_price S K T r q initial_sigma (1 / 10 ^ 7) 100
                     (1 / 10 ^ 10) (1 / 10 ^ 6) 5 True
      in if newton = Inr NaN
         then implied_vol_bisection side market_price S K T r q (1 / 10 ^ 7) 200 (1 / 10 ^ 6) 5 True
         else newton)"
  by (simp add: implied_vol_def Let_def newton_tol_def newton_max_iter_def newton_vega_floor_def
      newton_sigma_min_def newton_sigma_max_def bisection_tol_def bisection_max_iter_def
      bisection_sigma_low_def bisection_sigma_high_def split: sum.splits float_result.splits)

lemma newton_negative_price:
  "implied_vol_newton ''call'' (- 1) 100 100 1 0 0 (2 / 10) (1 / 10 ^ 7) 100 (1 / 10 ^ 10)
     (1 / 10 ^ 6) 5 True = Inr NaN"
  by (simp add: implied_vol_newton_def normalize_side_call)

lemma bisection_negative_price:
  "implied_vol_bisection ''call'' (- 1) 100 100 1 0 0 (1 / 10 ^ 7) 200 (1 / 10 ^ 6) 5 True = Inr NaN"
  by (simp add: implied_vol_bisection_def normalize_side_call)

lemma normalize_side_swap: "normalize_side ''swap'' = ''swap''"
  by code_simp

lemma newton_bad_side:
  "implied_vol_newton ''swap'' 1 100 100 1 0 0 (2 / 10) (1 / 10 ^ 7) 100 (1 / 10 ^ 10)
     (1 / 10 ^ 6) 5 True = Inl (ValueError option_type_msg)"
  by (simp add: implied_vol_newton_def normalize_side_swap)

theorem dispatch_policy_witness:
  "implied_vol ''call'' ((2 * norm_cdf (1 / 2) - 1) / 10 ^ 8) (1 / 10 ^ 8) (1 / 10 ^ 8) 1 0 0
     (2 / 10) = Inr (Val (2 / 10)) \<and>
   implied_vol ''call'' (- 1) 100 100 1 0 0 (2 / 10) = Inr NaN \<and>
   implied_vol ''swap'' 1 100 100 1 0 0 (2 / 10) = Inl (ValueError option_type_msg)"
proof -
  have t: "implied_vol_newton ''call'' ((2 * norm_cdf (1 / 2) - 1) / 10 ^ 8) (1 / 10 ^ 8)
      (1 / 10 ^ 8) 1 0 0 (2 / 10) (1 / 10 ^ 7) 100 (1 / 10 ^ 10) (1 / 10 ^ 6) 5 True
      = Inr (Val (2 / 10))"
    using tiny_newton
    by (simp only: newton_tol_def newton_max_iter_def newton_vega_floor_def newton_sigma_min_def
        newton_sigma_max_def)
  show ?thesis
    unfolding dispatch_policy Let_def
    by (simp only: t newton_negative_price bisection_negative_price newton_bad_side) simp
qed

subsection \<open>Wallis integrals\<close>










subsection \<open>The distribution function lies between 0 and 1\<close>

lemma norm_pdf_pos: "0 < norm_pdf x"
  by (simp add: norm_pdf_def)


lemma norm_cdf_strict_mono: "x < y \<Longrightarrow> norm_cdf x < norm_cdf y"
  by (rule DERIV_pos_imp_increasing [of x y norm_cdf])
     (auto intro!: exI [of _ "norm_pdf _"] norm_cdf_deriv norm_pdf_pos)













subsection \<open>The tail of the distribution function\<close>





subsection \<open>The closed form is a non-negative price\<close>





subsection \<open>The price increases with the volatility\<close>







subsection \<open>The bisection on a bracket never exhausts\<close>



subsection \<open>The round trip\<close>









end
